theory Spec2Isabelle
  imports Main
begin

section \<open>Data model\<close>

text \<open>
  A Python \<open>str\<close> is a sequence of Unicode code points, so the content of a message is a
  list of code points. \<open>str_lit\<close> turns an ASCII literal of the source into that
  representation.
\<close>

type_synonym py_str = "nat list"

definition str_lit :: "string \<Rightarrow> py_str" where
  "str_lit s = map of_char s"

text \<open>
  \<open>str.strip()\<close> without argument removes the leading and trailing code points for which
  \<open>str.isspace\<close> holds. The table is CPython's: the ASCII controls 9 to 13 and 28 to 31, the
  space, NEL, the no-break space and the Unicode space separators.
\<close>

definition whitespace_code_points :: "nat list" where
  "whitespace_code_points =
     [9, 10, 11, 12, 13, 28, 29, 30, 31, 32, 133, 160, 5760,
      8192, 8193, 8194, 8195, 8196, 8197, 8198, 8199, 8200, 8201, 8202,
      8232, 8233, 8239, 8287, 12288]"

definition isspace :: "nat \<Rightarrow> bool" where
  "isspace c = (c \<in> set whitespace_code_points)"

definition strip :: "py_str \<Rightarrow> py_str" where
  "strip s = rev (dropWhile isspace (rev (dropWhile isspace s)))"

text \<open>
  The message classes of \<open>langchain_core.messages\<close> that the source names. The
  \<open>isinstance\<close> tests of the source are the discriminators; \<open>SystemMessage\<close> is also the
  representative of every element that is neither a \<open>HumanMessage\<close> nor an
  \<open>AIMessage\<close>.
\<close>

datatype message =
    is_HumanMessage: HumanMessage (content: py_str)
  | is_AIMessage: AIMessage (content: py_str)
  | is_SystemMessage: SystemMessage (content: py_str)

text \<open>
  The exceptions a run can end with: indexing an empty list, subscripting a missing key,
  the end of standard input, a failure inside one of the two external services, and the
  step limit of the graph runtime.
\<close>

datatype error =
    IndexError
  | KeyError
  | EOFError
  | CollaboratorError
  | GraphRecursionError

text \<open>
  \<open>State\<close> is a \<open>TypedDict\<close>: either key may be absent, which is why the source reads
  it with \<open>state.get(key, default)\<close>. A field is \<open>None\<close> when the key is absent.
\<close>

record state =
  messages :: "message list option"
  valid_input :: "bool option"

definition get_messages :: "state \<Rightarrow> message list" where
  "get_messages st = (case messages st of None \<Rightarrow> [] | Some ms \<Rightarrow> ms)"

definition get_valid_input :: "state \<Rightarrow> bool" where
  "get_valid_input st = (case valid_input st of None \<Rightarrow> False | Some b \<Rightarrow> b)"

text \<open>
  The external parts, taken as parameters: the chat model (\<open>llm.invoke\<close>), the web search
  (\<open>tool_search.run\<close>) and the reducer \<open>add_messages\<close> that the annotation of
  \<open>messages\<close> attaches to the channel. A call of a service either raises or returns.
\<close>

record env =
  llm :: "message list \<Rightarrow> error + message"
  tool_search :: "py_str \<Rightarrow> error + py_str"
  add_messages :: "message list \<Rightarrow> message list \<Rightarrow> message list"

text \<open>\<open>xs[-1]\<close>: the last element, or \<open>IndexError\<close> on the empty list.\<close>

definition last_item :: "'a list \<Rightarrow> error + 'a" where
  "last_item xs = (if xs = [] then Inl IndexError else Inr (last xs))"

section \<open>The three stages\<close>

definition rewriter_prompt :: py_str where
  "rewriter_prompt = str_lit
     (''You are a helpful assistant that is great at processing user queries and turning them into a singular search query.''
      @ ''You will be given a user query and your job is the turn the users request into a new query that will be passed onto the next node.''
      @ ''This new query will be used to search the internet for information relevant to the users original query.''
      @ ''Do not bloat the query with unnecessary information, but ensure the context of the original query is preserved.'')"

definition formatter_prompt :: py_str where
  "formatter_prompt = str_lit
     (''You are a helpful assistant that is great at formatting search results into a human readable format.''
      @ ''You should receive the results of a search query that was processed in the previous few nodes.''
      @ ''The results should contain contents reguarding travel information, such as destinations, cities, countries, etc.''
      @ ''Your job is to format the results into the following format:''
      @ ''Topic Sentence (Can be something similar like 'Here are some interesting facts about x' or whatever you feel best fits as an intro sentence.)''
      @ ''3-5 bullet points describing the travel location as a whole''
      @ ''3-5 bullet points naming destinations the user should visit in the travel location''
      @ ''3-5 bullet points naming top things the user should do in the travel location''
      @ ''1-3 bullet points naming any other interesting facts about the travel location the user should know (can put N/A if not applicable)''
      @ ''A List of sources that were used''
      @ ''Stick to this format, and do not bloat the output with unnecessary information.''
      @ ''Do not explicitly type metadata such as 'title' or 'source' in the output, just list the contents of the metadata.''
      @ '''')"

definition no_user_input :: message where
  "no_user_input = AIMessage (str_lit ''No user input received.'')"

definition no_search_query :: message where
  "no_search_query = AIMessage (str_lit ''No search query received.'')"

definition no_search_results :: message where
  "no_search_results = AIMessage (str_lit ''No search results received.'')"

text \<open>
  \<open>processing_node\<close>: the guard \<open>not messages or not isinstance(messages[-1], HumanMessage)\<close>
  is evaluated left to right, so the last element is only read of a non-empty list.
\<close>

definition processing_node :: "env \<Rightarrow> state \<Rightarrow> error + state" where
  "processing_node env st =
     (let msgs = get_messages st in
      if msgs = [] \<or> \<not> is_HumanMessage (last msgs) then
        Inr \<lparr>messages = Some (msgs @ [no_user_input]), valid_input = Some False\<rparr>
      else
        let last_message = last msgs in
        if strip (content last_message) = [] then
          Inr \<lparr>messages = Some (msgs @ [no_user_input]), valid_input = Some False\<rparr>
        else
          (case llm env [SystemMessage rewriter_prompt, HumanMessage (content last_message)] of
             Inl e \<Rightarrow> Inl e
           | Inr response \<Rightarrow>
               Inr \<lparr>messages = Some (msgs @ [response]), valid_input = Some True\<rparr>))"

text \<open>
  \<open>process_search\<close> reads \<open>messages[-1]\<close> before any test, and so does
  \<open>format_output\<close>. The f-string \<open>f"Search results: {results}"\<close> is the literal followed
  by the text of the result.
\<close>

definition process_search :: "env \<Rightarrow> state \<Rightarrow> error + state" where
  "process_search env st =
     (let msgs = get_messages st in
      case last_item msgs of
        Inl e \<Rightarrow> Inl e
      | Inr search_query \<Rightarrow>
          if \<not> is_AIMessage search_query then
            Inr \<lparr>messages = Some (msgs @ [no_search_query]), valid_input = Some False\<rparr>
          else
            (case tool_search env (content search_query) of
               Inl e \<Rightarrow> Inl e
             | Inr results \<Rightarrow>
                 Inr \<lparr>messages = Some (msgs @ [AIMessage (str_lit ''Search results: '' @ results)]),
                      valid_input = Some True\<rparr>))"

definition format_output :: "env \<Rightarrow> state \<Rightarrow> error + state" where
  "format_output env st =
     (let msgs = get_messages st in
      case last_item msgs of
        Inl e \<Rightarrow> Inl e
      | Inr search_results \<Rightarrow>
          if \<not> is_AIMessage search_results then
            Inr \<lparr>messages = Some (msgs @ [no_search_results]), valid_input = Some False\<rparr>
          else
            (case llm env [SystemMessage formatter_prompt, HumanMessage (content search_results)] of
               Inl e \<Rightarrow> Inl e
             | Inr formatted_results \<Rightarrow>
                 Inr \<lparr>messages = Some (msgs @ [formatted_results]), valid_input = Some True\<rparr>))"

section \<open>The graph\<close>

text \<open>
  The three \<open>add_node\<close> calls register the stages; \<open>add_edge(START, "process_input")\<close>
  makes \<open>process_input\<close> the entry; the two conditional edges send the value of
  \<open>state.get("valid_input", False)\<close> through their path maps; \<open>format_output\<close> leads to
  \<open>END\<close>. A target of \<open>None\<close> is \<open>END\<close>.
\<close>

datatype node = Process_input | Process_search | Format_output

fun node_action :: "env \<Rightarrow> node \<Rightarrow> state \<Rightarrow> error + state" where
  "node_action env Process_input = processing_node env"
| "node_action env Process_search = process_search env"
| "node_action env Format_output = format_output env"

definition entry_point :: node where
  "entry_point = Process_input"

fun route :: "node \<Rightarrow> state \<Rightarrow> node option" where
  "route Process_input st = (if get_valid_input st then Some Process_search else None)"
| "route Process_search st = (if get_valid_input st then Some Format_output else None)"
| "route Format_output st = None"

text \<open>
  The runtime writes a dictionary into the channels key by key: \<open>messages\<close> through its
  reducer, \<open>valid_input\<close> by overwriting. The channel of \<open>messages\<close> starts as the empty
  list, the one of \<open>valid_input\<close> starts without a value.
\<close>

definition apply_update :: "env \<Rightarrow> state \<Rightarrow> state \<Rightarrow> state" where
  "apply_update env st upd =
     \<lparr>messages = (case messages upd of
                     None \<Rightarrow> messages st
                   | Some new \<Rightarrow> Some (add_messages env (get_messages st) new)),
      valid_input = (case valid_input upd of None \<Rightarrow> valid_input st | Some b \<Rightarrow> Some b)\<rparr>"

definition empty_channels :: state where
  "empty_channels = \<lparr>messages = Some [], valid_input = None\<rparr>"

text \<open>
  One run: a node is invoked on the current state, its result is written into the
  channels, and the edge out of the node picks the next one. The runtime gives up after
  \<open>recursion_limit\<close> steps. The second component records the nodes invoked, in order.
\<close>

definition recursion_limit :: nat where
  "recursion_limit = 25"

fun run_graph :: "env \<Rightarrow> nat \<Rightarrow> node option \<Rightarrow> state \<Rightarrow> node list \<Rightarrow> error + state \<times> node list" where
  "run_graph env fuel None st tr = Inr (st, tr)"
| "run_graph env 0 (Some n) st tr = Inl GraphRecursionError"
| "run_graph env (Suc fuel) (Some n) st tr =
     (case node_action env n st of
        Inl e \<Rightarrow> Inl e
      | Inr upd \<Rightarrow>
          let st' = apply_update env st upd
          in run_graph env fuel (route n st') st' (tr @ [n]))"

definition invoke_trace :: "env \<Rightarrow> state \<Rightarrow> error + state \<times> node list" where
  "invoke_trace env inp =
     run_graph env recursion_limit (Some entry_point) (apply_update env empty_channels inp) []"

definition invoke :: "env \<Rightarrow> state \<Rightarrow> error + state" where
  "invoke env inp =
     (case invoke_trace env inp of Inl e \<Rightarrow> Inl e | Inr (st, tr) \<Rightarrow> Inr st)"

section \<open>The command-line loop\<close>

definition prompt :: py_str where
  "prompt = str_lit ''Enter your search query ('q' to quit): ''"

definition invalid_response :: py_str where
  "invalid_response = str_lit ''Invalid response received.''"

definition initial_state :: state where
  "initial_state = \<lparr>messages = Some [], valid_input = Some False\<rparr>"

text \<open>
  The body of the loop: the input is appended to \<open>state["messages"]\<close>, the graph is
  invoked, and the last message of the result decides what is printed. The result is the
  new state and the printed text.
\<close>

definition chatbot_turn :: "env \<Rightarrow> state \<Rightarrow> py_str \<Rightarrow> error + state \<times> py_str" where
  "chatbot_turn env st user_input =
     (case messages st of
        None \<Rightarrow> Inl KeyError
      | Some ms \<Rightarrow>
          (case invoke env (st\<lparr>messages := Some (ms @ [HumanMessage user_input])\<rparr>) of
             Inl e \<Rightarrow> Inl e
           | Inr st' \<Rightarrow>
               (case messages st' of
                  None \<Rightarrow> Inl KeyError
                | Some ms' \<Rightarrow>
                    (case last_item ms' of
                       Inl e \<Rightarrow> Inl e
                     | Inr response \<Rightarrow>
                         Inr (st', if is_AIMessage response then content response
                                   else invalid_response)))))"

text \<open>
  The loop over the lines of standard input. \<open>input\<close> writes the prompt and then reads a
  line, raising \<open>EOFError\<close> when there is none. The last argument is what has been written
  to standard output so far.
\<close>

fun chatbot_loop :: "env \<Rightarrow> state \<Rightarrow> py_str list \<Rightarrow> py_str list \<Rightarrow> error + state \<times> py_str list" where
  "chatbot_loop env st [] out = Inl EOFError"
| "chatbot_loop env st (user_input # rest) out =
     (if user_input = str_lit ''q'' then Inr (st, out @ [prompt])
      else
        (case chatbot_turn env st user_input of
           Inl e \<Rightarrow> Inl e
         | Inr (st', printed) \<Rightarrow> chatbot_loop env st' rest (out @ [prompt, printed])))"

definition chatbot :: "env \<Rightarrow> py_str list \<Rightarrow> error + state \<times> py_str list" where
  "chatbot env inputs = chatbot_loop env initial_state inputs []"

section \<open>Test doubles\<close>

text \<open>
  Deterministic stand-ins for the external parts, used to run the definitions on
  concrete inputs: a chat model that always answers \<open>Portugal beaches\<close>, a search that
  always returns \<open>stub results\<close>, and a reducer that keeps a list which extends the
  channel and appends any other. The second environment differs in the chat model, whose
  answer is not an \<open>AIMessage\<close>.
\<close>

definition stub_env :: env where
  "stub_env =
     \<lparr>llm = (\<lambda>ms. Inr (AIMessage (str_lit ''Portugal beaches''))),
      tool_search = (\<lambda>q. Inr (str_lit ''stub results'')),
      add_messages = (\<lambda>old new. if take (length old) new = old then new else old @ new)\<rparr>"

definition system_reply_env :: env where
  "system_reply_env = stub_env\<lparr>llm := (\<lambda>ms. Inr (SystemMessage (str_lit ''Portugal beaches'')))\<rparr>"

section \<open>Auxiliary facts\<close>

lemmas run_simps =
  apply_update_def empty_channels_def get_messages_def get_valid_input_def
  processing_node_def process_search_def format_output_def last_item_def
  stub_env_def strip_def isspace_def whitespace_code_points_def str_lit_def
  no_user_input_def no_search_query_def no_search_results_def

lemma stub_env_merges: "add_messages stub_env old (old @ new) = old @ new"
  by (simp add: stub_env_def)

lemma stub_env_answers: "llm stub_env ms = Inr r \<Longrightarrow> is_AIMessage r"
  by (auto simp: stub_env_def)

text \<open>The test \<open>not s.strip()\<close> succeeds exactly on the strings made of whitespace only.\<close>

lemma dropWhile_all_iff: "(\<forall>c \<in> set (dropWhile P s). P c) \<longleftrightarrow> (\<forall>c \<in> set s. P c)"
proof
  assume a: "\<forall>c \<in> set (dropWhile P s). P c"
  have "dropWhile P s = []"
  proof (rule ccontr)
    assume ne: "dropWhile P s \<noteq> []"
    then have "\<not> P (hd (dropWhile P s))" by (rule hd_dropWhile)
    moreover have "hd (dropWhile P s) \<in> set (dropWhile P s)" using ne by simp
    ultimately show False using a by blast
  qed
  then show "\<forall>c \<in> set s. P c" by (simp only: dropWhile_eq_Nil_conv)
next
  assume "\<forall>c \<in> set s. P c"
  then show "\<forall>c \<in> set (dropWhile P s). P c" by (blast dest: set_dropWhileD)
qed

lemma strip_empty_iff: "strip s = [] \<longleftrightarrow> (\<forall>c \<in> set s. isspace c)"
proof -
  have "strip s = [] \<longleftrightarrow> dropWhile isspace (rev (dropWhile isspace s)) = []"
    by (simp add: strip_def)
  also have "\<dots> \<longleftrightarrow> (\<forall>c \<in> set (rev (dropWhile isspace s)). isspace c)"
    by (simp only: dropWhile_eq_Nil_conv)
  also have "\<dots> \<longleftrightarrow> (\<forall>c \<in> set (dropWhile isspace s). isspace c)"
    by (simp only: set_rev)
  also have "\<dots> \<longleftrightarrow> (\<forall>c \<in> set s. isspace c)"
    by (rule dropWhile_all_iff)
  finally show ?thesis .
qed

text \<open>
  On a non-empty list whose last element is not an \<open>AIMessage\<close>, the search stage and
  the formatter append their diagnostic.
\<close>

lemma process_search_rejects:
  assumes "get_messages st \<noteq> []" and "\<not> is_AIMessage (last (get_messages st))"
  shows "process_search env st =
           Inr \<lparr>messages = Some (get_messages st @ [AIMessage (str_lit ''No search query received.'')]),
                valid_input = Some False\<rparr>"
  using assms by (simp add: process_search_def last_item_def no_search_query_def)

lemma format_output_rejects:
  assumes "get_messages st \<noteq> []" and "\<not> is_AIMessage (last (get_messages st))"
  shows "format_output env st =
           Inr \<lparr>messages = Some (get_messages st @ [AIMessage (str_lit ''No search results received.'')]),
                valid_input = Some False\<rparr>"
  using assms by (simp add: format_output_def last_item_def no_search_results_def)

text \<open>
  Every stage that returns has appended one message and set the flag. The message is an
  \<open>AIMessage\<close> built by the stage, or it is an answer of the chat model, and the latter
  only with the flag set.
\<close>

lemma node_action_appends:
  assumes "node_action env n st = Inr r"
  shows "\<exists>m b. r = \<lparr>messages = Some (get_messages st @ [m]), valid_input = Some b\<rparr>"
proof (cases n)
  case Process_input
  then show ?thesis using assms
    by (auto simp: processing_node_def Let_def split: if_splits sum.splits)
next
  case Process_search
  then show ?thesis using assms
    by (auto simp: process_search_def Let_def split: if_splits sum.splits)
next
  case Format_output
  then show ?thesis using assms
    by (auto simp: format_output_def Let_def split: if_splits sum.splits)
qed

lemma processing_node_result:
  assumes "processing_node env st = Inr r"
  shows "\<exists>m b. r = \<lparr>messages = Some (get_messages st @ [m]), valid_input = Some b\<rparr>
               \<and> (\<not> b \<longrightarrow> is_AIMessage m)
               \<and> (is_AIMessage m \<or> (\<exists>ms. llm env ms = Inr m))"
proof (cases "get_messages st = [] \<or> \<not> is_HumanMessage (last (get_messages st))
              \<or> strip (content (last (get_messages st))) = []")
  case True
  with assms have "r = \<lparr>messages = Some (get_messages st @ [no_user_input]), valid_input = Some False\<rparr>"
    by (auto simp: processing_node_def Let_def split: if_splits)
  then show ?thesis
    by (intro exI [of _ no_user_input] exI [of _ False]) (simp add: no_user_input_def)
next
  case False
  let ?q = "[SystemMessage rewriter_prompt, HumanMessage (content (last (get_messages st)))]"
  from False assms obtain m where m: "llm env ?q = Inr m"
    and "r = \<lparr>messages = Some (get_messages st @ [m]), valid_input = Some True\<rparr>"
    by (cases "llm env ?q") (auto simp: processing_node_def Let_def)
  then show ?thesis by blast
qed

lemma process_search_result:
  assumes "process_search env st = Inr r"
  shows "\<exists>m b. r = \<lparr>messages = Some (get_messages st @ [m]), valid_input = Some b\<rparr>
               \<and> is_AIMessage m"
  using assms
  by (auto simp: process_search_def Let_def no_search_query_def split: if_splits sum.splits)

lemma format_output_result:
  assumes "format_output env st = Inr r"
  shows "\<exists>m b. r = \<lparr>messages = Some (get_messages st @ [m]), valid_input = Some b\<rparr>
               \<and> (\<not> b \<longrightarrow> is_AIMessage m)
               \<and> (is_AIMessage m \<or> (\<exists>ms. llm env ms = Inr m))"
proof (cases "last_item (get_messages st)")
  case (Inl e)
  with assms show ?thesis by (simp add: format_output_def)
next
  case (Inr x)
  show ?thesis
  proof (cases "is_AIMessage x")
    case False
    with Inr assms
    have "r = \<lparr>messages = Some (get_messages st @ [no_search_results]), valid_input = Some False\<rparr>"
      by (auto simp: format_output_def Let_def split: if_splits)
    then show ?thesis
      by (intro exI [of _ no_search_results] exI [of _ False]) (simp add: no_search_results_def)
  next
    case True
    let ?q = "[SystemMessage formatter_prompt, HumanMessage (content x)]"
    from True Inr assms obtain m where m: "llm env ?q = Inr m"
      and "r = \<lparr>messages = Some (get_messages st @ [m]), valid_input = Some True\<rparr>"
      by (cases "llm env ?q") (auto simp: format_output_def Let_def)
    then show ?thesis by blast
  qed
qed

lemma node_action_result:
  assumes "node_action env n st = Inr r"
  shows "\<exists>m b. r = \<lparr>messages = Some (get_messages st @ [m]), valid_input = Some b\<rparr>
               \<and> (\<not> b \<longrightarrow> is_AIMessage m)
               \<and> (is_AIMessage m \<or> (\<exists>ms. llm env ms = Inr m))"
proof (cases n)
  case Process_input
  with assms show ?thesis using processing_node_result [of env st r] by simp
next
  case Process_search
  with assms show ?thesis using process_search_result [of env st r] by auto
next
  case Format_output
  with assms show ?thesis using format_output_result [of env st r] by simp
qed

text \<open>
  When the reducer leaves an extension of the channel as it is, writing the result of a
  stage into the channels gives that result, and writing the input into the empty
  channels gives the input.
\<close>

lemma apply_update_input:
  assumes merge: "\<And>old new. add_messages env old (old @ new) = old @ new"
  shows "apply_update env empty_channels inp =
           \<lparr>messages = Some (get_messages inp), valid_input = valid_input inp\<rparr>"
proof -
  have "add_messages env [] ms = ms" for ms using merge [of "[]" ms] by simp
  then show ?thesis
    by (simp add: apply_update_def empty_channels_def get_messages_def split: option.splits)
qed

lemma step_result:
  assumes merge: "\<And>old new. add_messages env old (old @ new) = old @ new"
    and act: "node_action env n st = Inr r"
  obtains m b where
    "apply_update env st r = \<lparr>messages = Some (get_messages st @ [m]), valid_input = Some b\<rparr>"
    and "\<not> b \<longrightarrow> is_AIMessage m"
    and "is_AIMessage m \<or> (\<exists>ms. llm env ms = Inr m)"
proof -
  from node_action_result [OF act] obtain m b
    where r: "r = \<lparr>messages = Some (get_messages st @ [m]), valid_input = Some b\<rparr>"
      and p: "\<not> b \<longrightarrow> is_AIMessage m" "is_AIMessage m \<or> (\<exists>ms. llm env ms = Inr m)"
    by blast
  have "apply_update env st r = r" by (simp add: r apply_update_def merge)
  with r p that show ?thesis by blast
qed

text \<open>A run of the graph is at most one pass through the three stages.\<close>

lemma run_graph_three_steps:
  "run_graph env (Suc (Suc (Suc k))) (Some Process_input) st0 [] =
     (case processing_node env st0 of
        Inl e \<Rightarrow> Inl e
      | Inr u1 \<Rightarrow>
          let st1 = apply_update env st0 u1 in
          if \<not> get_valid_input st1 then Inr (st1, [Process_input])
          else
            (case process_search env st1 of
               Inl e \<Rightarrow> Inl e
             | Inr u2 \<Rightarrow>
                 let st2 = apply_update env st1 u2 in
                 if \<not> get_valid_input st2 then Inr (st2, [Process_input, Process_search])
                 else
                   (case format_output env st2 of
                      Inl e \<Rightarrow> Inl e
                    | Inr u3 \<Rightarrow>
                        Inr (apply_update env st2 u3, [Process_input, Process_search, Format_output]))))"
  by (simp add: Let_def split: sum.splits)

lemma invoke_trace_unfold:
  "invoke_trace env inp =
     (let st0 = apply_update env empty_channels inp in
      case processing_node env st0 of
        Inl e \<Rightarrow> Inl e
      | Inr u1 \<Rightarrow>
          let st1 = apply_update env st0 u1 in
          if \<not> get_valid_input st1 then Inr (st1, [Process_input])
          else
            (case process_search env st1 of
               Inl e \<Rightarrow> Inl e
             | Inr u2 \<Rightarrow>
                 let st2 = apply_update env st1 u2 in
                 if \<not> get_valid_input st2 then Inr (st2, [Process_input, Process_search])
                 else
                   (case format_output env st2 of
                      Inl e \<Rightarrow> Inl e
                    | Inr u3 \<Rightarrow>
                        Inr (apply_update env st2 u3, [Process_input, Process_search, Format_output]))))"
proof -
  have lim: "recursion_limit = Suc (Suc (Suc 22))" by (simp add: recursion_limit_def)
  show ?thesis
    by (simp only: invoke_trace_def lim entry_point_def run_graph_three_steps Let_def)
qed

lemma invoke_trace_cases:
  assumes run: "invoke_trace env inp = Inr (st', tr)"
    and st0: "st0 = apply_update env empty_channels inp"
  obtains
    (one) u1 where "node_action env Process_input st0 = Inr u1"
      and "st' = apply_update env st0 u1" and "\<not> get_valid_input st'"
  | (two) u1 u2 where "node_action env Process_input st0 = Inr u1"
      and "node_action env Process_search (apply_update env st0 u1) = Inr u2"
      and "st' = apply_update env (apply_update env st0 u1) u2" and "\<not> get_valid_input st'"
  | (three) u1 u2 u3 where "node_action env Process_input st0 = Inr u1"
      and "node_action env Process_search (apply_update env st0 u1) = Inr u2"
      and "node_action env Format_output (apply_update env (apply_update env st0 u1) u2) = Inr u3"
      and "st' = apply_update env (apply_update env (apply_update env st0 u1) u2) u3"
proof (cases "processing_node env st0")
  case (Inl e)
  with run st0 show ?thesis by (simp add: invoke_trace_unfold)
next
  case u1: (Inr u1)
  show ?thesis
  proof (cases "get_valid_input (apply_update env st0 u1)")
    case False
    with run st0 u1 have "st' = apply_update env st0 u1"
      by (simp add: invoke_trace_unfold)
    with False u1 one show ?thesis by simp
  next
    case v1: True
    show ?thesis
    proof (cases "process_search env (apply_update env st0 u1)")
      case (Inl e)
      with run st0 u1 v1 show ?thesis by (simp add: invoke_trace_unfold)
    next
      case u2: (Inr u2)
      show ?thesis
      proof (cases "get_valid_input (apply_update env (apply_update env st0 u1) u2)")
        case False
        with run st0 u1 v1 u2 have "st' = apply_update env (apply_update env st0 u1) u2"
          by (simp add: invoke_trace_unfold)
        with False u1 u2 two show ?thesis by simp
      next
        case v2: True
        show ?thesis
        proof (cases "format_output env (apply_update env (apply_update env st0 u1) u2)")
          case (Inl e)
          with run st0 u1 v1 u2 v2 show ?thesis by (simp add: invoke_trace_unfold)
        next
          case u3: (Inr u3)
          with run st0 u1 v1 u2 v2
          have "st' = apply_update env (apply_update env (apply_update env st0 u1) u2) u3"
            by (simp add: invoke_trace_unfold)
          with u1 u2 u3 three show ?thesis by simp
        qed
      qed
    qed
  qed
qed

text \<open>
  What a run that returns has done to the state: between one and three messages were
  appended to the input list, three when the flag is set at the end.
\<close>

lemma invoke_result:
  assumes merge: "\<And>old new. add_messages env old (old @ new) = old @ new"
    and run: "invoke env inp = Inr st'"
  shows "\<exists>app b. st' = \<lparr>messages = Some (get_messages inp @ app), valid_input = Some b\<rparr>
                 \<and> app \<noteq> [] \<and> length app \<le> 3 \<and> (b \<longrightarrow> length app = 3)
                 \<and> (is_AIMessage (last app) \<or> (\<exists>ms. llm env ms = Inr (last app)))"
proof -
  define st0 where "st0 = apply_update env empty_channels inp"
  have "get_messages (apply_update env empty_channels inp) = get_messages inp"
    by (simp add: apply_update_input [OF merge] get_messages_def)
  then have g0: "get_messages st0 = get_messages inp"
    by (simp only: st0_def)
  from run obtain tr where tr: "invoke_trace env inp = Inr (st', tr)"
    by (cases "invoke_trace env inp") (auto simp: invoke_def)
  from tr st0_def show ?thesis
  proof (cases rule: invoke_trace_cases)
    case (one u1)
    from step_result [OF merge one(1)] obtain m1 b1
      where s1: "apply_update env st0 u1 =
                   \<lparr>messages = Some (get_messages st0 @ [m1]), valid_input = Some b1\<rparr>"
        and p1: "\<not> b1 \<longrightarrow> is_AIMessage m1" by blast
    from one(2,3) s1 have "\<not> b1" by (simp add: get_valid_input_def)
    with p1 s1 one(2) g0 have "st' = \<lparr>messages = Some (get_messages inp @ [m1]), valid_input = Some False\<rparr>"
      and "is_AIMessage m1" by simp_all
    then show ?thesis
      by (intro exI [of _ "[m1]"] exI [of _ False]) simp
  next
    case (two u1 u2)
    from step_result [OF merge two(1)] obtain m1 b1
      where s1: "apply_update env st0 u1 =
                   \<lparr>messages = Some (get_messages st0 @ [m1]), valid_input = Some b1\<rparr>"
      by blast
    have g1: "get_messages (apply_update env st0 u1) = get_messages inp @ [m1]"
      unfolding s1 g0 by (simp add: get_messages_def)
    from step_result [OF merge two(2)] obtain m2 b2
      where s2: "apply_update env (apply_update env st0 u1) u2 =
                   \<lparr>messages = Some (get_messages (apply_update env st0 u1) @ [m2]),
                    valid_input = Some b2\<rparr>"
        and p2: "\<not> b2 \<longrightarrow> is_AIMessage m2" by blast
    from two(3,4) s2 have "\<not> b2" by (simp add: get_valid_input_def)
    with p2 s2 two(3) g1
    have "st' = \<lparr>messages = Some (get_messages inp @ [m1, m2]), valid_input = Some False\<rparr>"
      and "is_AIMessage m2" by simp_all
    then show ?thesis
      by (intro exI [of _ "[m1, m2]"] exI [of _ False]) simp
  next
    case (three u1 u2 u3)
    from step_result [OF merge three(1)] obtain m1 b1
      where s1: "apply_update env st0 u1 =
                   \<lparr>messages = Some (get_messages st0 @ [m1]), valid_input = Some b1\<rparr>"
      by blast
    have g1: "get_messages (apply_update env st0 u1) = get_messages inp @ [m1]"
      unfolding s1 g0 by (simp add: get_messages_def)
    from step_result [OF merge three(2)] obtain m2 b2
      where s2: "apply_update env (apply_update env st0 u1) u2 =
                   \<lparr>messages = Some (get_messages (apply_update env st0 u1) @ [m2]),
                    valid_input = Some b2\<rparr>"
      by blast
    have g2: "get_messages (apply_update env (apply_update env st0 u1) u2) =
                get_messages inp @ [m1, m2]"
      unfolding s2 g1 by (simp add: get_messages_def)
    from step_result [OF merge three(3)] obtain m3 b3
      where s3: "apply_update env (apply_update env (apply_update env st0 u1) u2) u3 =
                   \<lparr>messages = Some (get_messages (apply_update env (apply_update env st0 u1) u2)
                                        @ [m3]),
                    valid_input = Some b3\<rparr>"
        and p3: "is_AIMessage m3 \<or> (\<exists>ms. llm env ms = Inr m3)" by blast
    from s3 three(4) g2
    have "st' = \<lparr>messages = Some (get_messages inp @ [m1, m2, m3]), valid_input = Some b3\<rparr>"
      by simp
    with p3 show ?thesis
      by (intro exI [of _ "[m1, m2, m3]"] exI [of _ b3]) simp
  qed
qed

lemma chatbot_turn_result:
  assumes merge: "\<And>old new. add_messages env old (old @ new) = old @ new"
    and turn: "chatbot_turn env st user_input = Inr (st', printed)"
  shows "\<exists>app b. st' = \<lparr>messages = Some (get_messages st @ HumanMessage user_input # app),
                          valid_input = Some b\<rparr>
                 \<and> app \<noteq> [] \<and> length app \<le> 3 \<and> (b \<longrightarrow> length app = 3)
                 \<and> (is_AIMessage (last app) \<or> (\<exists>ms. llm env ms = Inr (last app)))
                 \<and> printed = (if is_AIMessage (last app) then content (last app)
                              else invalid_response)"
proof -
  from turn obtain ms where ms: "messages st = Some ms"
    by (cases "messages st") (auto simp: chatbot_turn_def)
  let ?inp = "st\<lparr>messages := Some (ms @ [HumanMessage user_input])\<rparr>"
  from turn ms have run: "invoke env ?inp = Inr st'"
    by (cases "invoke env ?inp") (auto simp: chatbot_turn_def split: option.splits sum.splits)
  have gi: "get_messages ?inp = get_messages st @ [HumanMessage user_input]"
    by (simp add: get_messages_def ms)
  from invoke_result [OF merge run] obtain app b
    where st': "st' = \<lparr>messages = Some (get_messages st @ HumanMessage user_input # app),
                       valid_input = Some b\<rparr>"
      and app: "app \<noteq> []" "length app \<le> 3" "b \<longrightarrow> length app = 3"
        "is_AIMessage (last app) \<or> (\<exists>ms. llm env ms = Inr (last app))"
    unfolding gi by auto
  have l: "last_item (get_messages st @ HumanMessage user_input # app) = Inr (last app)"
    using app(1) by (simp add: last_item_def)
  from turn ms run have "printed = (if is_AIMessage (last app) then content (last app)
                                    else invalid_response)"
    by (simp add: chatbot_turn_def st' l)
  with st' app show ?thesis by blast
qed

text \<open>Two turns of the loop with the test doubles.\<close>

lemma stub_turn_Faro:
  "chatbot_turn stub_env initial_state (str_lit ''Faro'') =
     Inr (\<lparr>messages = Some [HumanMessage (str_lit ''Faro''),
                             AIMessage (str_lit ''Portugal beaches''),
                             AIMessage (str_lit ''Search results: stub results''),
                             AIMessage (str_lit ''Portugal beaches'')],
           valid_input = Some True\<rparr>,
          str_lit ''Portugal beaches'')"
  by (simp add: chatbot_turn_def initial_state_def invoke_def invoke_trace_unfold run_simps)

lemma stub_turn_Lisbon:
  "chatbot_turn stub_env
     \<lparr>messages = Some [HumanMessage (str_lit ''Faro''),
                       AIMessage (str_lit ''Portugal beaches''),
                       AIMessage (str_lit ''Search results: stub results''),
                       AIMessage (str_lit ''Portugal beaches'')],
      valid_input = Some True\<rparr>
     (str_lit ''Lisbon'') =
     Inr (\<lparr>messages = Some [HumanMessage (str_lit ''Faro''),
                             AIMessage (str_lit ''Portugal beaches''),
                             AIMessage (str_lit ''Search results: stub results''),
                             AIMessage (str_lit ''Portugal beaches''),
                             HumanMessage (str_lit ''Lisbon''),
                             AIMessage (str_lit ''Portugal beaches''),
                             AIMessage (str_lit ''Search results: stub results''),
                             AIMessage (str_lit ''Portugal beaches'')],
           valid_input = Some True\<rparr>,
          str_lit ''Portugal beaches'')"
  by (simp add: chatbot_turn_def invoke_def invoke_trace_unfold run_simps)

section \<open>The rewriter stage\<close>

text \<open>
  C1: when the message list is empty (or the key is absent), when its last element is not
  a \<open>HumanMessage\<close>, or when every code point of the last content is whitespace (the
  empty content included), \<open>processing_node\<close> returns without raising: the result is the
  input list followed by the assistant message \<open>No user input received.\<close>, with
  \<open>valid_input\<close> false.
\<close>

theorem processing_node_rejects:
  assumes "get_messages st = []
           \<or> \<not> is_HumanMessage (last (get_messages st))
           \<or> (\<forall>c \<in> set (content (last (get_messages st))). isspace c)"
  shows "processing_node env st =
           Inr \<lparr>messages = Some (get_messages st @ [AIMessage (str_lit ''No user input received.'')]),
                valid_input = Some False\<rparr>"
  using assms by (auto simp: processing_node_def Let_def no_user_input_def strip_empty_iff)

theorem processing_node_rejects_witness:
  "get_messages \<lparr>messages = None, valid_input = None\<rparr> = []
   \<and> processing_node stub_env \<lparr>messages = None, valid_input = None\<rparr> =
       Inr \<lparr>messages = Some [AIMessage (str_lit ''No user input received.'')],
            valid_input = Some False\<rparr>
   \<and> \<not> is_HumanMessage (last (get_messages
          \<lparr>messages = Some [AIMessage (str_lit ''Lisbon'')], valid_input = Some True\<rparr>))
   \<and> processing_node stub_env
         \<lparr>messages = Some [AIMessage (str_lit ''Lisbon'')], valid_input = Some True\<rparr> =
       Inr \<lparr>messages = Some [AIMessage (str_lit ''Lisbon''),
                             AIMessage (str_lit ''No user input received.'')],
            valid_input = Some False\<rparr>
   \<and> list_all isspace (content (last (get_messages
          \<lparr>messages = Some [HumanMessage [32, 9, 160]], valid_input = Some False\<rparr>)))
   \<and> processing_node stub_env
         \<lparr>messages = Some [HumanMessage [32, 9, 160]], valid_input = Some False\<rparr> =
       Inr \<lparr>messages = Some [HumanMessage [32, 9, 160],
                             AIMessage (str_lit ''No user input received.'')],
            valid_input = Some False\<rparr>"
proof -
  have e: "get_messages \<lparr>messages = None, valid_input = None\<rparr> = []"
    by (simp add: get_messages_def)
  have a: "\<not> is_HumanMessage (last (get_messages
             \<lparr>messages = Some [AIMessage (str_lit ''Lisbon'')], valid_input = Some True\<rparr>))"
    by (simp add: get_messages_def)
  have w: "\<forall>c \<in> set (content (last (get_messages
             \<lparr>messages = Some [HumanMessage [32, 9, 160]], valid_input = Some False\<rparr>))). isspace c"
    by (simp add: get_messages_def isspace_def whitespace_code_points_def)
  show ?thesis
    using e a w
      processing_node_rejects [of "\<lparr>messages = None, valid_input = None\<rparr>" stub_env]
      processing_node_rejects
        [of "\<lparr>messages = Some [AIMessage (str_lit ''Lisbon'')], valid_input = Some True\<rparr>" stub_env]
      processing_node_rejects
        [of "\<lparr>messages = Some [HumanMessage [32, 9, 160]], valid_input = Some False\<rparr>" stub_env]
    by (simp add: get_messages_def isspace_def whitespace_code_points_def)
qed

text \<open>
  C4: when the last message is a \<open>HumanMessage\<close> whose text has a code point that is not
  whitespace, and the chat model answers the rewriting request with an assistant message,
  \<open>processing_node\<close> returns the input list followed by that one answer, with
  \<open>valid_input\<close> true.
\<close>

theorem processing_node_accepts:
  assumes "get_messages st = ms @ [HumanMessage text]"
    and "\<exists>c \<in> set text. \<not> isspace c"
    and "llm env [SystemMessage rewriter_prompt, HumanMessage text] = Inr response"
    and "is_AIMessage response"
  shows "processing_node env st =
           Inr \<lparr>messages = Some (get_messages st @ [response]), valid_input = Some True\<rparr>
         \<and> is_AIMessage response"
  using assms by (auto simp: processing_node_def Let_def strip_empty_iff)

theorem processing_node_accepts_witness:
  "processing_node stub_env
     \<lparr>messages = Some [HumanMessage (str_lit ''best beaches in Portugal'')],
      valid_input = Some False\<rparr> =
     Inr \<lparr>messages = Some [HumanMessage (str_lit ''best beaches in Portugal''),
                           AIMessage (str_lit ''Portugal beaches'')],
          valid_input = Some True\<rparr>
   \<and> is_AIMessage (AIMessage (str_lit ''Portugal beaches''))"
  using processing_node_accepts
    [of "\<lparr>messages = Some [HumanMessage (str_lit ''best beaches in Portugal'')],
          valid_input = Some False\<rparr>"
        "[]" "str_lit ''best beaches in Portugal''" stub_env
        "AIMessage (str_lit ''Portugal beaches'')"]
  by (simp add: get_messages_def stub_env_def str_lit_def isspace_def whitespace_code_points_def)

section \<open>The search stage and the formatter stage\<close>

text \<open>
  C2: on the empty message list \<open>process_search\<close> and \<open>format_output\<close> do not append a
  diagnostic: both read \<open>messages[-1]\<close> first, which raises \<open>IndexError\<close>.
\<close>

theorem search_and_formatter_raise_on_empty:
  "process_search env \<lparr>messages = Some [], valid_input = Some False\<rparr> = Inl IndexError
   \<and> format_output env \<lparr>messages = Some [], valid_input = Some False\<rparr> = Inl IndexError"
  by (simp add: process_search_def format_output_def get_messages_def last_item_def)

text \<open>
  C5: on a non-empty list that ends in an \<open>AIMessage\<close>, when the search returns
  \<open>results\<close> for the content of that message, \<open>process_search\<close> returns the input list
  followed by the assistant message \<open>Search results: \<close> and \<open>results\<close>, with
  \<open>valid_input\<close> true.
\<close>

theorem process_search_accepts:
  assumes "get_messages st \<noteq> []"
    and "is_AIMessage (last (get_messages st))"
    and "tool_search env (content (last (get_messages st))) = Inr results"
  shows "process_search env st =
           Inr \<lparr>messages = Some (get_messages st
                                  @ [AIMessage (str_lit ''Search results: '' @ results)]),
                valid_input = Some True\<rparr>"
  using assms by (simp add: process_search_def last_item_def)

theorem process_search_accepts_witness:
  "process_search stub_env
     \<lparr>messages = Some [HumanMessage (str_lit ''best beaches in Portugal''),
                       AIMessage (str_lit ''Portugal beaches'')],
      valid_input = Some True\<rparr> =
     Inr \<lparr>messages = Some [HumanMessage (str_lit ''best beaches in Portugal''),
                           AIMessage (str_lit ''Portugal beaches''),
                           AIMessage (str_lit ''Search results: stub results'')],
          valid_input = Some True\<rparr>"
  using process_search_accepts
    [of "\<lparr>messages = Some [HumanMessage (str_lit ''best beaches in Portugal''),
                           AIMessage (str_lit ''Portugal beaches'')],
          valid_input = Some True\<rparr>" stub_env "str_lit ''stub results''"]
  by (simp add: get_messages_def stub_env_def str_lit_def)

section \<open>Frame properties of the stages\<close>

text \<open>
  C6: whenever one of the three stages returns, the message list of its result is the
  input list, unchanged, followed by exactly one new message.
\<close>

theorem stages_only_append:
  assumes "stage = processing_node \<or> stage = process_search \<or> stage = format_output"
    and "stage env st = Inr r"
  shows "\<exists>m. messages r = Some (get_messages st @ [m])"
proof -
  from assms(1) obtain n where "stage = (\<lambda>e. node_action e n)"
    by (metis node_action.simps)
  with assms(2) have "node_action env n st = Inr r" by simp
  from node_action_appends [OF this] show ?thesis by auto
qed

theorem stages_only_append_witness:
  "processing_node stub_env \<lparr>messages = Some [HumanMessage []], valid_input = Some False\<rparr> =
     Inr \<lparr>messages = Some [HumanMessage [], no_user_input], valid_input = Some False\<rparr>
   \<and> process_search stub_env \<lparr>messages = Some [HumanMessage []], valid_input = Some False\<rparr> =
       Inr \<lparr>messages = Some [HumanMessage [], no_search_query], valid_input = Some False\<rparr>
   \<and> format_output stub_env \<lparr>messages = Some [HumanMessage []], valid_input = Some False\<rparr> =
       Inr \<lparr>messages = Some [HumanMessage [], no_search_results], valid_input = Some False\<rparr>
   \<and> (\<exists>m. messages \<lparr>messages = Some [HumanMessage [], no_user_input], valid_input = Some False\<rparr> =
         Some (get_messages \<lparr>messages = Some [HumanMessage []], valid_input = Some False\<rparr> @ [m]))
   \<and> (\<exists>m. messages \<lparr>messages = Some [HumanMessage [], no_search_query], valid_input = Some False\<rparr> =
         Some (get_messages \<lparr>messages = Some [HumanMessage []], valid_input = Some False\<rparr> @ [m]))
   \<and> (\<exists>m. messages \<lparr>messages = Some [HumanMessage [], no_search_results], valid_input = Some False\<rparr> =
         Some (get_messages \<lparr>messages = Some [HumanMessage []], valid_input = Some False\<rparr> @ [m]))"
proof -
  let ?st = "\<lparr>messages = Some [HumanMessage []], valid_input = Some False\<rparr>"
  have p: "processing_node stub_env ?st =
             Inr \<lparr>messages = Some [HumanMessage [], no_user_input], valid_input = Some False\<rparr>"
    by (simp add: processing_node_def get_messages_def strip_def)
  have s: "process_search stub_env ?st =
             Inr \<lparr>messages = Some [HumanMessage [], no_search_query], valid_input = Some False\<rparr>"
    by (simp add: process_search_def get_messages_def last_item_def)
  have f: "format_output stub_env ?st =
             Inr \<lparr>messages = Some [HumanMessage [], no_search_results], valid_input = Some False\<rparr>"
    by (simp add: format_output_def get_messages_def last_item_def)
  show ?thesis
    using p s f
      stages_only_append [of processing_node stub_env ?st, OF _ p]
      stages_only_append [of process_search stub_env ?st, OF _ s]
      stages_only_append [of format_output stub_env ?st, OF _ f]
    by simp
qed

text \<open>
  C9: a stage reads the last message only. On two states whose non-empty lists end in the
  same message, a stage either raises the same exception on both, or appends the same
  message to both and sets the same flag.
\<close>

theorem stages_read_last_only:
  assumes "stage = processing_node \<or> stage = process_search \<or> stage = format_output"
    and "get_messages st1 = xs @ [m]"
    and "get_messages st2 = ys @ [m]"
  shows "(\<exists>e. stage env st1 = Inl e \<and> stage env st2 = Inl e)
         \<or> (\<exists>a v. stage env st1 = Inr \<lparr>messages = Some (xs @ [m, a]), valid_input = Some v\<rparr>
                 \<and> stage env st2 = Inr \<lparr>messages = Some (ys @ [m, a]), valid_input = Some v\<rparr>)"
proof -
  consider "stage = processing_node" | "stage = process_search" | "stage = format_output"
    using assms(1) by blast
  then show ?thesis
  proof cases
    case 1
    show ?thesis
    proof (cases "llm env [SystemMessage rewriter_prompt, HumanMessage (content m)]")
      case (Inl e)
      with 1 assms(2,3) show ?thesis
        by (cases "is_HumanMessage m \<and> strip (content m) \<noteq> []")
           (auto simp: processing_node_def Let_def)
    next
      case (Inr r)
      with 1 assms(2,3) show ?thesis
        by (cases "is_HumanMessage m \<and> strip (content m) \<noteq> []")
           (auto simp: processing_node_def Let_def)
    qed
  next
    case 2
    show ?thesis
    proof (cases "tool_search env (content m)")
      case (Inl e)
      with 2 assms(2,3) show ?thesis
        by (cases "is_AIMessage m") (auto simp: process_search_def Let_def last_item_def)
    next
      case (Inr r)
      with 2 assms(2,3) show ?thesis
        by (cases "is_AIMessage m") (auto simp: process_search_def Let_def last_item_def)
    qed
  next
    case 3
    show ?thesis
    proof (cases "llm env [SystemMessage formatter_prompt, HumanMessage (content m)]")
      case (Inl e)
      with 3 assms(2,3) show ?thesis
        by (cases "is_AIMessage m") (auto simp: format_output_def Let_def last_item_def)
    next
      case (Inr r)
      with 3 assms(2,3) show ?thesis
        by (cases "is_AIMessage m") (auto simp: format_output_def Let_def last_item_def)
    qed
  qed
qed

theorem stages_read_last_only_witness:
  "processing_node stub_env
     \<lparr>messages = Some [HumanMessage (str_lit ''Faro'')], valid_input = Some False\<rparr> =
     Inr \<lparr>messages = Some [HumanMessage (str_lit ''Faro''), AIMessage (str_lit ''Portugal beaches'')],
          valid_input = Some True\<rparr>
   \<and> processing_node stub_env
       \<lparr>messages = Some [AIMessage (str_lit ''Porto''), HumanMessage (str_lit ''Lisbon''),
                         HumanMessage (str_lit ''Faro'')],
        valid_input = Some True\<rparr> =
       Inr \<lparr>messages = Some [AIMessage (str_lit ''Porto''), HumanMessage (str_lit ''Lisbon''),
                             HumanMessage (str_lit ''Faro''), AIMessage (str_lit ''Portugal beaches'')],
            valid_input = Some True\<rparr>"
proof -
  let ?st1 = "\<lparr>messages = Some [HumanMessage (str_lit ''Faro'')], valid_input = Some False\<rparr>"
  let ?st2 = "\<lparr>messages = Some [AIMessage (str_lit ''Porto''), HumanMessage (str_lit ''Lisbon''),
                                  HumanMessage (str_lit ''Faro'')],
               valid_input = Some True\<rparr>"
  have g1: "get_messages ?st1 = [] @ [HumanMessage (str_lit ''Faro'')]"
    by (simp add: get_messages_def)
  have g2: "get_messages ?st2 = [AIMessage (str_lit ''Porto''), HumanMessage (str_lit ''Lisbon'')]
                                @ [HumanMessage (str_lit ''Faro'')]"
    by (simp add: get_messages_def)
  have r1: "processing_node stub_env ?st1 =
              Inr \<lparr>messages = Some [HumanMessage (str_lit ''Faro''),
                                    AIMessage (str_lit ''Portugal beaches'')],
                   valid_input = Some True\<rparr>"
    by (simp add: run_simps)
  from stages_read_last_only [of processing_node, OF _ g1 g2, of stub_env] r1
  show ?thesis by auto
qed

section \<open>The router\<close>

text \<open>
  C3: when the rewriter has run and left \<open>valid_input\<close> false, the edge out of
  \<open>process_input\<close> leads to \<open>END\<close> and the run consists of that one node; when the
  search stage has run and left \<open>valid_input\<close> false, the edge out of \<open>process_search\<close>
  leads to \<open>END\<close> and the formatter is not invoked.
\<close>

theorem router_early_exit:
  assumes "st0 = apply_update env empty_channels inp"
    and "processing_node env st0 = Inr upd1"
    and "st1 = apply_update env st0 upd1"
  shows "(\<not> get_valid_input st1 \<longrightarrow>
            route Process_input st1 = None
            \<and> invoke_trace env inp = Inr (st1, [Process_input]))
         \<and> (get_valid_input st1 \<and> process_search env st1 = Inr upd2
              \<and> st2 = apply_update env st1 upd2 \<and> \<not> get_valid_input st2 \<longrightarrow>
            route Process_search st2 = None
            \<and> invoke_trace env inp = Inr (st2, [Process_input, Process_search]))"
  using assms by (simp add: invoke_trace_unfold Let_def)

theorem router_early_exit_witness:
  "route Process_input
     \<lparr>messages = Some [HumanMessage (str_lit '' ''), no_user_input], valid_input = Some False\<rparr> = None
   \<and> invoke_trace stub_env \<lparr>messages = Some [HumanMessage (str_lit '' '')], valid_input = Some False\<rparr> =
       Inr (\<lparr>messages = Some [HumanMessage (str_lit '' ''), no_user_input], valid_input = Some False\<rparr>,
            [Process_input])
   \<and> route Process_search
       \<lparr>messages = Some [HumanMessage (str_lit ''Faro''), SystemMessage (str_lit ''Portugal beaches''),
                         no_search_query],
        valid_input = Some False\<rparr> = None
   \<and> invoke_trace system_reply_env \<lparr>messages = Some [HumanMessage (str_lit ''Faro'')], valid_input = Some False\<rparr> =
       Inr (\<lparr>messages = Some [HumanMessage (str_lit ''Faro''),
                               SystemMessage (str_lit ''Portugal beaches''), no_search_query],
             valid_input = Some False\<rparr>,
            [Process_input, Process_search])"
proof -
  let ?blank = "\<lparr>messages = Some [HumanMessage (str_lit '' '')], valid_input = Some False\<rparr>"
  let ?blank1 = "\<lparr>messages = Some [HumanMessage (str_lit '' ''), no_user_input],
                  valid_input = Some False\<rparr>"
  let ?faro = "\<lparr>messages = Some [HumanMessage (str_lit ''Faro'')], valid_input = Some False\<rparr>"
  let ?faro1 = "\<lparr>messages = Some [HumanMessage (str_lit ''Faro''),
                                    SystemMessage (str_lit ''Portugal beaches'')],
                 valid_input = Some True\<rparr>"
  let ?faro2 = "\<lparr>messages = Some [HumanMessage (str_lit ''Faro''),
                                    SystemMessage (str_lit ''Portugal beaches''), no_search_query],
                 valid_input = Some False\<rparr>"
  have a0: "?blank = apply_update stub_env empty_channels ?blank"
    by (simp add: run_simps)
  have a1: "processing_node stub_env ?blank = Inr ?blank1"
    by (simp add: run_simps)
  have a2: "?blank1 = apply_update stub_env ?blank ?blank1"
    by (simp add: run_simps)
  have a3: "\<not> get_valid_input ?blank1"
    by (simp add: get_valid_input_def)
  have b0: "?faro = apply_update system_reply_env empty_channels ?faro"
    by (simp add: system_reply_env_def run_simps)
  have b1: "processing_node system_reply_env ?faro = Inr ?faro1"
    by (simp add: system_reply_env_def run_simps)
  have b2: "?faro1 = apply_update system_reply_env ?faro ?faro1"
    by (simp add: system_reply_env_def run_simps)
  have b3: "get_valid_input ?faro1"
    by (simp add: get_valid_input_def)
  have b4: "process_search system_reply_env ?faro1 = Inr ?faro2"
    by (simp add: system_reply_env_def run_simps)
  have b5: "?faro2 = apply_update system_reply_env ?faro1 ?faro2"
    by (simp add: system_reply_env_def run_simps)
  have b6: "\<not> get_valid_input ?faro2"
    by (simp add: get_valid_input_def)
  from router_early_exit [OF a0 a1 a2] a3
  have A: "route Process_input ?blank1 = None
           \<and> invoke_trace stub_env ?blank = Inr (?blank1, [Process_input])"
    by blast
  from router_early_exit [OF b0 b1 b2, of ?faro2 ?faro2] b3 b4 b5 b6
  have B: "route Process_search ?faro2 = None
           \<and> invoke_trace system_reply_env ?faro = Inr (?faro2, [Process_input, Process_search])"
    by blast
  from A B show ?thesis by simp
qed

text \<open>
  C10: with a reducer that leaves an extension of the channel as it is and a chat model
  whose answers are assistant messages, every run that returns ends in an \<open>AIMessage\<close>,
  and every turn of the loop that completes prints the content of that message.
\<close>

theorem last_message_is_assistant:
  assumes merge: "\<And>old new. add_messages env old (old @ new) = old @ new"
    and ai: "\<And>ms r. llm env ms = Inr r \<Longrightarrow> is_AIMessage r"
  shows "(invoke env inp = Inr st' \<longrightarrow>
            (\<exists>ms a. messages st' = Some (ms @ [a]) \<and> is_AIMessage a))
         \<and> (chatbot_turn env st user_input = Inr (st'', printed) \<longrightarrow>
            (\<exists>ms a. messages st'' = Some (ms @ [a]) \<and> is_AIMessage a \<and> printed = content a))"
proof (intro conjI impI)
  assume run: "invoke env inp = Inr st'"
  from invoke_result [OF merge run] obtain app b
    where s: "st' = \<lparr>messages = Some (get_messages inp @ app), valid_input = Some b\<rparr>"
      and ne: "app \<noteq> []"
      and l: "is_AIMessage (last app) \<or> (\<exists>ms. llm env ms = Inr (last app))" by blast
  from l ai have a: "is_AIMessage (last app)" by blast
  have "messages st' = Some ((get_messages inp @ butlast app) @ [last app])"
    using ne by (simp add: s)
  with a show "\<exists>ms a. messages st' = Some (ms @ [a]) \<and> is_AIMessage a" by blast
next
  assume turn: "chatbot_turn env st user_input = Inr (st'', printed)"
  from chatbot_turn_result [OF merge turn] obtain app b
    where s: "st'' = \<lparr>messages = Some (get_messages st @ HumanMessage user_input # app),
                       valid_input = Some b\<rparr>"
      and ne: "app \<noteq> []"
      and l: "is_AIMessage (last app) \<or> (\<exists>ms. llm env ms = Inr (last app))"
      and p: "printed = (if is_AIMessage (last app) then content (last app) else invalid_response)"
    by blast
  from l ai have a: "is_AIMessage (last app)" by blast
  have "messages st'' = Some ((get_messages st @ HumanMessage user_input # butlast app) @ [last app])"
    using ne by (simp add: s)
  with a p show "\<exists>ms a. messages st'' = Some (ms @ [a]) \<and> is_AIMessage a \<and> printed = content a"
    by auto
qed

theorem last_message_is_assistant_witness:
  "(\<exists>ms a. messages \<lparr>messages = Some [HumanMessage (str_lit ''Faro''),
                                      AIMessage (str_lit ''Portugal beaches''),
                                      AIMessage (str_lit ''Search results: stub results''),
                                      AIMessage (str_lit ''Portugal beaches'')],
                    valid_input = Some True\<rparr> = Some (ms @ [a])
            \<and> is_AIMessage a \<and> str_lit ''Portugal beaches'' = content a)
   \<and> chatbot_turn stub_env initial_state (str_lit ''Faro'') =
       Inr (\<lparr>messages = Some [HumanMessage (str_lit ''Faro''),
                               AIMessage (str_lit ''Portugal beaches''),
                               AIMessage (str_lit ''Search results: stub results''),
                               AIMessage (str_lit ''Portugal beaches'')],
             valid_input = Some True\<rparr>,
            str_lit ''Portugal beaches'')"
  using last_message_is_assistant
          [where env = stub_env and st = initial_state and user_input = "str_lit ''Faro''"
             and st'' = "\<lparr>messages = Some [HumanMessage (str_lit ''Faro''),
                                             AIMessage (str_lit ''Portugal beaches''),
                                             AIMessage (str_lit ''Search results: stub results''),
                                             AIMessage (str_lit ''Portugal beaches'')],
                          valid_input = Some True\<rparr>"
             and printed = "str_lit ''Portugal beaches''",
           OF stub_env_merges stub_env_answers]
        stub_turn_Faro
  by simp

section \<open>The command-line loop\<close>

text \<open>
  C7: on the input \<open>q\<close> the loop ends, and nothing is written after the prompt that
  \<open>input\<close> wrote before reading the line. On any other input the graph is invoked on the
  state extended by the input; when it returns, the loop prints the content of the last
  message if that is an \<open>AIMessage\<close> and \<open>Invalid response received.\<close> otherwise, and
  goes on with the returned state.
\<close>

theorem chatbot_loop_behaviour:
  "chatbot_loop env st (str_lit ''q'' # rest) out = Inr (st, out @ [prompt])
   \<and> (user_input \<noteq> str_lit ''q''
        \<and> messages st = Some ms
        \<and> invoke env (st\<lparr>messages := Some (ms @ [HumanMessage user_input])\<rparr>) = Inr st'
        \<and> messages st' = Some (ms' @ [response]) \<longrightarrow>
      chatbot_loop env st (user_input # rest) out =
        chatbot_loop env st' rest
          (out @ [prompt, if is_AIMessage response then content response
                          else str_lit ''Invalid response received.'']))"
  by (simp add: chatbot_turn_def last_item_def invalid_response_def)

theorem chatbot_loop_behaviour_witness:
  "chatbot_loop stub_env initial_state [str_lit ''q'', str_lit ''Faro''] [] =
     Inr (initial_state, [prompt])
   \<and> chatbot_loop stub_env initial_state [str_lit ''Faro'', str_lit ''q''] [] =
       Inr (\<lparr>messages = Some [HumanMessage (str_lit ''Faro''),
                               AIMessage (str_lit ''Portugal beaches''),
                               AIMessage (str_lit ''Search results: stub results''),
                               AIMessage (str_lit ''Portugal beaches'')],
             valid_input = Some True\<rparr>,
            [prompt, str_lit ''Portugal beaches'', prompt])"
proof -
  let ?st' = "\<lparr>messages = Some [HumanMessage (str_lit ''Faro''),
                                  AIMessage (str_lit ''Portugal beaches''),
                                  AIMessage (str_lit ''Search results: stub results''),
                                  AIMessage (str_lit ''Portugal beaches'')],
               valid_input = Some True\<rparr>"
  have ne: "str_lit ''Faro'' \<noteq> str_lit ''q''" by (simp add: str_lit_def)
  have m: "messages initial_state = Some []" by (simp add: initial_state_def)
  have run: "invoke stub_env (initial_state\<lparr>messages := Some ([] @ [HumanMessage (str_lit ''Faro'')])\<rparr>)
               = Inr ?st'"
    by (simp add: initial_state_def invoke_def invoke_trace_unfold run_simps)
  have m': "messages ?st' = Some ([HumanMessage (str_lit ''Faro''),
                                  AIMessage (str_lit ''Portugal beaches''),
                                  AIMessage (str_lit ''Search results: stub results'')]
                                 @ [AIMessage (str_lit ''Portugal beaches'')])"
    by simp
  from chatbot_loop_behaviour
         [of stub_env initial_state "[str_lit ''Faro'']" "[]"]
  have A: "chatbot_loop stub_env initial_state [str_lit ''q'', str_lit ''Faro''] [] =
             Inr (initial_state, [prompt])"
    by simp
  from chatbot_loop_behaviour
         [of stub_env initial_state "[str_lit ''q'']" "[]" "str_lit ''Faro''" "[]" ?st'
             "[HumanMessage (str_lit ''Faro''), AIMessage (str_lit ''Portugal beaches''),
               AIMessage (str_lit ''Search results: stub results'')]"
             "AIMessage (str_lit ''Portugal beaches'')"]
       ne m run m'
  have B: "chatbot_loop stub_env initial_state [str_lit ''Faro'', str_lit ''q''] [] =
             chatbot_loop stub_env ?st' [str_lit ''q''] [prompt, str_lit ''Portugal beaches'']"
    by simp
  from chatbot_loop_behaviour
         [of stub_env ?st' "[]" "[prompt, str_lit ''Portugal beaches'']"]
  have C: "chatbot_loop stub_env ?st' [str_lit ''q''] [prompt, str_lit ''Portugal beaches''] =
             Inr (?st', [prompt, str_lit ''Portugal beaches'', prompt])"
    by simp
  from A B C show ?thesis by simp
qed

text \<open>
  C8: the loop starts from the empty message list with \<open>valid_input\<close> false and carries
  the state from turn to turn. After two turns that both end with \<open>valid_input\<close> true
  the list has eight messages: each turn added the input and three messages of the
  stages, and the second turn kept the four messages of the first.
\<close>

theorem two_successful_turns:
  assumes merge: "\<And>old new. add_messages env old (old @ new) = old @ new"
    and q1: "u1 \<noteq> str_lit ''q''" and q2: "u2 \<noteq> str_lit ''q''"
    and t1: "chatbot_turn env initial_state u1 = Inr (st1, p1)" and v1: "get_valid_input st1"
    and t2: "chatbot_turn env st1 u2 = Inr (st2, p2)" and v2: "get_valid_input st2"
  shows "initial_state = \<lparr>messages = Some [], valid_input = Some False\<rparr>
         \<and> chatbot env [u1, u2, str_lit ''q''] = Inr (st2, [prompt, p1, prompt, p2, prompt])
         \<and> length (get_messages st1) = 4
         \<and> length (get_messages st2) = 8
         \<and> take 5 (get_messages st2) = get_messages st1 @ [HumanMessage u2]"
proof -
  from chatbot_turn_result [OF merge t1] obtain app1 b1
    where s1: "st1 = \<lparr>messages = Some (get_messages initial_state @ HumanMessage u1 # app1),
                       valid_input = Some b1\<rparr>"
      and l1: "b1 \<longrightarrow> length app1 = 3" by blast
  from v1 s1 l1 have n1: "length app1 = 3" by (simp add: get_valid_input_def)
  have g1: "get_messages st1 = HumanMessage u1 # app1"
    by (simp add: s1 get_messages_def initial_state_def)
  from chatbot_turn_result [OF merge t2] obtain app2 b2
    where s2: "st2 = \<lparr>messages = Some (get_messages st1 @ HumanMessage u2 # app2),
                       valid_input = Some b2\<rparr>"
      and l2: "b2 \<longrightarrow> length app2 = 3" by blast
  from v2 s2 l2 have n2: "length app2 = 3" by (simp add: get_valid_input_def)
  have g2: "get_messages st2 = get_messages st1 @ HumanMessage u2 # app2"
    by (simp add: s2 get_messages_def)
  have run: "chatbot env [u1, u2, str_lit ''q''] = Inr (st2, [prompt, p1, prompt, p2, prompt])"
    using q1 q2 t1 t2 by (simp add: chatbot_def)
  show ?thesis
    using run n1 n2 by (simp add: g2 g1 initial_state_def)
qed

theorem two_successful_turns_witness:
  "chatbot stub_env [str_lit ''Faro'', str_lit ''Lisbon'', str_lit ''q''] =
     Inr (\<lparr>messages = Some [HumanMessage (str_lit ''Faro''),
                             AIMessage (str_lit ''Portugal beaches''),
                             AIMessage (str_lit ''Search results: stub results''),
                             AIMessage (str_lit ''Portugal beaches''),
                             HumanMessage (str_lit ''Lisbon''),
                             AIMessage (str_lit ''Portugal beaches''),
                             AIMessage (str_lit ''Search results: stub results''),
                             AIMessage (str_lit ''Portugal beaches'')],
           valid_input = Some True\<rparr>,
          [prompt, str_lit ''Portugal beaches'', prompt, str_lit ''Portugal beaches'', prompt])
   \<and> length (get_messages
        \<lparr>messages = Some [HumanMessage (str_lit ''Faro''),
                          AIMessage (str_lit ''Portugal beaches''),
                          AIMessage (str_lit ''Search results: stub results''),
                          AIMessage (str_lit ''Portugal beaches''),
                          HumanMessage (str_lit ''Lisbon''),
                          AIMessage (str_lit ''Portugal beaches''),
                          AIMessage (str_lit ''Search results: stub results''),
                          AIMessage (str_lit ''Portugal beaches'')],
         valid_input = Some True\<rparr>) = 8"
proof -
  have q1: "str_lit ''Faro'' \<noteq> str_lit ''q''" and q2: "str_lit ''Lisbon'' \<noteq> str_lit ''q''"
    by (simp_all add: str_lit_def)
  from two_successful_turns [OF stub_env_merges q1 q2 stub_turn_Faro _ stub_turn_Lisbon]
  show ?thesis by (simp add: get_valid_input_def)
qed

end
